theory Spec2Isabelle
  imports
    Complex_Main
    "HOL-Library.Word"
    "HOL-Library.Signed_Division"
    "HOL-Library.Log_Nat"
    "HOL-Library.Monad_Syntax"
begin

unbundle bit_operations_syntax

section \<open>Bytes, strings and machine integers\<close>

text \<open>
  A Go \<^verbatim>\<open>string\<close> and a \<^verbatim>\<open>[]byte\<close> are sequences of bytes; both are lists of 8-bit
  words here. \<^verbatim>\<open>int64\<close>, \<^verbatim>\<open>int32\<close> and \<^verbatim>\<open>rune\<close> are words read as two's complement
  (\<open>sint\<close>); \<^verbatim>\<open>int\<close> is the 64-bit \<^verbatim>\<open>int\<close> of a 64-bit platform. A \<^verbatim>\<open>float64\<close> is its
  IEEE 754 binary64 bit pattern, so \<^verbatim>\<open>math.Float64bits\<close> and \<^verbatim>\<open>math.Float64frombits\<close>
  are the identity. A result of type \<open>option\<close> is \<open>None\<close> where the Go code panics.
\<close>

type_synonym byte = "8 word"
type_synonym int32 = "32 word"
type_synonym int64 = "64 word"
type_synonym rune = "32 word"
type_synonym float64 = "64 word"

text \<open>The bytes of a string literal.\<close>

definition bs :: "string \<Rightarrow> byte list" where
  "bs s = map of_char s"

text \<open>The decimal digits of a natural number, the most significant first.\<close>

fun utoa :: "nat \<Rightarrow> byte list" where
  "utoa n = (if n < 10 then [0x30 + of_nat n] else utoa (n div 10) @ [0x30 + of_nat (n mod 10)])"

declare utoa.simps [simp del]

text \<open>The decimal representation of an integer: a minus sign for a negative one, then the
  digits of its magnitude.\<close>

definition decimal :: "int \<Rightarrow> byte list" where
  "decimal n = (if n < 0 then 0x2D # utoa (nat (- n)) else utoa (nat n))"

text \<open>Reading a digit string back: the digits \<^verbatim>\<open>0\<close> to \<^verbatim>\<open>9\<close>, and the number a string of
  digits denotes.\<close>

definition is_digit :: "byte \<Rightarrow> bool" where
  "is_digit c = (0x30 \<le> c \<and> c \<le> 0x39)"

definition digits_value :: "byte list \<Rightarrow> nat" where
  "digits_value ds = foldl (\<lambda>a d. 10 * a + unat (d - 0x30)) 0 ds"

text \<open>The digits of a positive number, and none for 0.\<close>

fun udigits :: "nat \<Rightarrow> byte list" where
  "udigits n = (if n = 0 then [] else udigits (n div 10) @ [0x30 + of_nat (n mod 10)])"

declare udigits.simps [simp del]

text \<open>
  Go's \<^verbatim>\<open>/\<close> and \<^verbatim>\<open>%\<close> on \<^verbatim>\<open>int64\<close> truncate towards zero. The divisors in this
  program are non-zero constants.
\<close>

definition div64 :: "int64 \<Rightarrow> int64 \<Rightarrow> int64" where
  "div64 a b = word_of_int (sint a sdiv sint b)"

definition rem64 :: "int64 \<Rightarrow> int64 \<Rightarrow> int64" where
  "rem64 a b = word_of_int (sint a smod sint b)"

section \<open>time (Go standard library): instants\<close>

text \<open>
  A \<^verbatim>\<open>time.Time\<close> is an instant (seconds and nanoseconds since the Unix epoch) and a
  location. A \<^verbatim>\<open>*time.Location\<close> is read through the zone offset (seconds east of UTC)
  it gives at a Unix time, which is all that formatting uses of it.
\<close>

type_synonym Location = "int \<Rightarrow> int"

record GoTime =
  sec :: int
  nsec :: int
  loc :: Location

definition UTC :: Location where
  "UTC = (\<lambda>_. 0)"

text \<open>\<^verbatim>\<open>t.UnixNano()\<close>: the result wraps where it does not fit an \<^verbatim>\<open>int64\<close>.\<close>

definition UnixNano :: "GoTime \<Rightarrow> int64" where
  "UnixNano t = word_of_int (sec t * 1000000000 + nsec t)"

text \<open>\<^verbatim>\<open>time.Unix(0, n)\<close>, in the location \<^verbatim>\<open>time.Local\<close> of the process.\<close>

definition Unix0 :: "Location \<Rightarrow> int64 \<Rightarrow> GoTime" where
  "Unix0 local n = \<lparr>sec = sint n div 1000000000, nsec = sint n mod 1000000000, loc = local\<rparr>"

section \<open>unicode/utf8 (Go standard library)\<close>

text \<open>
  \<^verbatim>\<open>utf8.DecodeRuneInString\<close> with its tables \<^verbatim>\<open>first\<close> and \<^verbatim>\<open>acceptRanges\<close>, as the
  standard library defines them. \<^verbatim>\<open>first\<close> is a table of 256 entries, written here by
  its ranges.
\<close>

definition RuneError :: rune where "RuneError = 0xFFFD"
definition RuneSelf :: byte where "RuneSelf = 0x80"

definition first :: "byte \<Rightarrow> byte" where
  "first b =
     (if b < 0x80 then 0xF0
      else if b < 0xC2 then 0xF1
      else if b < 0xE0 then 0x02
      else if b = 0xE0 then 0x13
      else if b < 0xED then 0x03
      else if b = 0xED then 0x23
      else if b < 0xF0 then 0x03
      else if b = 0xF0 then 0x34
      else if b < 0xF4 then 0x04
      else if b = 0xF4 then 0x44
      else 0xF1)"

definition acceptRanges :: "byte \<Rightarrow> byte \<times> byte" where
  "acceptRanges k =
     (if k = 0 then (0x80, 0xBF)
      else if k = 1 then (0xA0, 0xBF)
      else if k = 2 then (0x80, 0x9F)
      else if k = 3 then (0x90, 0xBF)
      else if k = 4 then (0x80, 0x8F)
      else (0, 0))"

definition DecodeRuneInString :: "byte list \<Rightarrow> rune \<times> nat" where
  "DecodeRuneInString s =
     (let n = length s in
      if n < 1 then (RuneError, 0)
      else
        let s0 = s ! 0; x = first s0 in
        if x \<ge> 0xF0 then
          (let mask = signed_drop_bit 31 (push_bit 31 (ucast x :: rune)) in
           ((ucast s0 AND NOT mask) OR (RuneError AND mask), 1))
        else
          let sz = unat (x AND 7); accept = acceptRanges (drop_bit 4 x) in
          if n < sz then (RuneError, 1)
          else
            let s1 = s ! 1 in
            if s1 < fst accept \<or> snd accept < s1 then (RuneError, 1)
            else if sz \<le> 2 then
              (push_bit 6 (ucast (s0 AND 0x1F)) OR ucast (s1 AND 0x3F), 2)
            else
              let s2 = s ! 2 in
              if s2 < 0x80 \<or> 0xBF < s2 then (RuneError, 1)
              else if sz \<le> 3 then
                (push_bit 12 (ucast (s0 AND 0x0F)) OR push_bit 6 (ucast (s1 AND 0x3F))
                   OR ucast (s2 AND 0x3F), 3)
              else
                let s3 = s ! 3 in
                if s3 < 0x80 \<or> 0xBF < s3 then (RuneError, 1)
                else
                  (push_bit 18 (ucast (s0 AND 0x07)) OR push_bit 12 (ucast (s1 AND 0x3F))
                     OR push_bit 6 (ucast (s2 AND 0x3F)) OR ucast (s3 AND 0x3F), 4))"

section \<open>encoder.go: strings\<close>

text \<open>The table \<^verbatim>\<open>safeSet\<close> as \<^verbatim>\<open>init\<close> fills it.\<close>

definition safeSet :: "byte \<Rightarrow> bool" where
  "safeSet b = (0x20 \<le> b \<and> b \<le> 0x7E \<and> b \<noteq> 0x22 \<and> b \<noteq> 0x5C)"

definition hexDigit :: "byte \<Rightarrow> byte" where
  "hexDigit b = (if b < 10 then 0x30 + b else 0x61 + b - 10)"

text \<open>The slice \<^verbatim>\<open>s[a:b]\<close>.\<close>

definition slice :: "'a list \<Rightarrow> nat \<Rightarrow> nat \<Rightarrow> 'a list" where
  "slice s a b = take (b - a) (drop a s)"

text \<open>The inner loop \<^verbatim>\<open>for i < len(s) && safeSet[s[i]] { i++ }\<close>.\<close>

function scanSafe :: "byte list \<Rightarrow> nat \<Rightarrow> nat" where
  "scanSafe s i = (if i < length s \<and> safeSet (s ! i) then scanSafe s (i + 1) else i)"
  by pat_completeness auto
termination
  by (relation "measure (\<lambda>(s, i). length s - i)") auto

declare scanSafe.simps [simp del]

text \<open>The switch of the slow path on an ASCII byte.\<close>

definition escapeByte :: "byte \<Rightarrow> byte list" where
  "escapeByte b =
     (if b = 0x22 then [0x5C, 0x22]
      else if b = 0x5C then [0x5C, 0x5C]
      else if b = 0x0A then [0x5C, 0x6E]
      else if b = 0x0D then [0x5C, 0x72]
      else if b = 0x09 then [0x5C, 0x74]
      else [0x5C, 0x75, 0x30, 0x30, hexDigit (drop_bit 4 b), hexDigit (b AND 0x0F)])"

text \<open>The outer loop of \<^verbatim>\<open>appendEscapedString\<close>, from index \<open>i0\<close>.\<close>

function appendEscapedString_from :: "byte list \<Rightarrow> byte list \<Rightarrow> nat \<Rightarrow> byte list" where
  "appendEscapedString_from dst s i0 =
     (if i0 < length s then
        (let start = i0;
             i = scanSafe s i0;
             dst1 = (if i > start then dst @ slice s start i else dst)
         in
           if i \<ge> length s then dst1
           else
             let b = s ! i in
             if b \<ge> RuneSelf then
               (let rs = DecodeRuneInString (drop i s);
                    dst2 = (if fst rs = RuneError \<and> snd rs = 1
                            then dst1 @ [0x5C, 0x75, 0x66, 0x66, 0x66, 0x64]
                            else dst1 @ slice s i (i + snd rs))
                in appendEscapedString_from dst2 s (i + snd rs))
             else appendEscapedString_from (dst1 @ escapeByte b) s (i + 1))
      else dst)"
  by pat_completeness auto
termination
proof -
  have scan: "i \<le> scanSafe s i" for s i
    by (induction s i rule: scanSafe.induct) (subst scanSafe.simps, auto)
  have dec: "1 \<le> snd (DecodeRuneInString xs)" if "xs \<noteq> []" for xs
    using that by (simp add: DecodeRuneInString_def Let_def)
  show ?thesis
  proof (relation "measure (\<lambda>(dst, s, i). length s - i)", goal_cases)
    case 1
    show ?case by simp
  next
    case (2 dst s i0 x xa xb xc xd xe)
    have "drop (scanSafe s i0) s \<noteq> []"
      using 2 by simp
    from dec [OF this] scan [of i0 s] 2 show ?case
      by simp
  next
    case (3 dst s i0 x xa xb xc)
    with scan [of i0 s] show ?case
      by simp
  qed
qed

declare appendEscapedString_from.simps [simp del]

definition appendEscapedString :: "byte list \<Rightarrow> byte list \<Rightarrow> byte list" where
  "appendEscapedString dst s = appendEscapedString_from dst s 0"

definition appendJSONString :: "byte list \<Rightarrow> byte list \<Rightarrow> byte list" where
  "appendJSONString dst s =
     (let dst1 = dst @ [0x22];
          dst2 = appendEscapedString dst1 s
      in dst2 @ [0x22])"

definition appendKey :: "byte list \<Rightarrow> byte list \<Rightarrow> byte list" where
  "appendKey dst key =
     (let dst1 = dst @ [0x22];
          dst2 = appendEscapedString dst1 key
      in dst2 @ [0x22, 0x3A])"

definition appendBool :: "byte list \<Rightarrow> bool \<Rightarrow> byte list" where
  "appendBool dst v = (if v then dst @ bs ''true'' else dst @ bs ''false'')"

text \<open>
  What \<^verbatim>\<open>appendEscapedString\<close> appends for a string, by the string's first byte: a safe
  byte as it is, a byte from \<^verbatim>\<open>utf8.RuneSelf\<close> on by what \<^verbatim>\<open>utf8.DecodeRuneInString\<close>
  finds there, any other byte by the switch.
\<close>

function escaped :: "byte list \<Rightarrow> byte list" where
  "escaped [] = []"
| "escaped (b # rest) =
     (if safeSet b then b # escaped rest
      else if b \<ge> RuneSelf then
        (let rs = DecodeRuneInString (b # rest) in
         (if fst rs = RuneError \<and> snd rs = 1 then [0x5C, 0x75, 0x66, 0x66, 0x66, 0x64]
          else take (snd rs) (b # rest)) @ escaped (drop (snd rs) (b # rest)))
      else escapeByte b @ escaped rest)"
  by pat_completeness auto
termination
proof (relation "measure length", goal_cases)
  case 1
  show ?case by simp
next
  case (2 b rest)
  show ?case by simp
next
  case (3 b rest rs)
  have "1 \<le> snd (DecodeRuneInString (b # rest))"
    by (simp add: DecodeRuneInString_def Let_def)
  with 3 show ?case by simp
next
  case (4 b rest)
  show ?case by simp
qed

declare escaped.simps(2) [simp del]

section \<open>Well-formed UTF-8\<close>

text \<open>
  The well-formed byte sequences of the Unicode standard (table 3-7) for the code points
  from U+0080 on: two to four bytes. A string is valid UTF-8 when it is a sequence of
  ASCII bytes and of such sequences.
\<close>

definition cont :: "byte \<Rightarrow> bool" where
  "cont b = (0x80 \<le> b \<and> b \<le> 0xBF)"

fun utf8_seq :: "byte list \<Rightarrow> bool" where
  "utf8_seq [b0, b1] = (0xC2 \<le> b0 \<and> b0 \<le> 0xDF \<and> cont b1)"
| "utf8_seq [b0, b1, b2] =
     (((b0 = 0xE0 \<and> 0xA0 \<le> b1 \<and> b1 \<le> 0xBF)
       \<or> (0xE1 \<le> b0 \<and> b0 \<le> 0xEC \<and> cont b1)
       \<or> (b0 = 0xED \<and> 0x80 \<le> b1 \<and> b1 \<le> 0x9F)
       \<or> (0xEE \<le> b0 \<and> b0 \<le> 0xEF \<and> cont b1))
      \<and> cont b2)"
| "utf8_seq [b0, b1, b2, b3] =
     (((b0 = 0xF0 \<and> 0x90 \<le> b1 \<and> b1 \<le> 0xBF)
       \<or> (0xF1 \<le> b0 \<and> b0 \<le> 0xF3 \<and> cont b1)
       \<or> (b0 = 0xF4 \<and> 0x80 \<le> b1 \<and> b1 \<le> 0x8F))
      \<and> cont b2 \<and> cont b3)"
| "utf8_seq q = False"

function valid_utf8 :: "byte list \<Rightarrow> bool" where
  "valid_utf8 [] = True"
| "valid_utf8 (b # rest) =
     (if b < 0x80 then valid_utf8 rest
      else if utf8_seq (take 2 (b # rest)) then valid_utf8 (drop 2 (b # rest))
      else if utf8_seq (take 3 (b # rest)) then valid_utf8 (drop 3 (b # rest))
      else if utf8_seq (take 4 (b # rest)) then valid_utf8 (drop 4 (b # rest))
      else False)"
  by pat_completeness auto
termination
  by (relation "measure length") auto

declare valid_utf8.simps(2) [simp del]


section \<open>encoder.go: integers\<close>

text \<open>
  The loop \<^verbatim>\<open>for v > 0 { i--; buf[i] = byte(v%10) + '0'; v /= 10 }\<close> over the array
  \<^verbatim>\<open>buf\<close>. An index outside the array panics.
\<close>

function appendInt64_loop :: "byte list \<Rightarrow> int \<Rightarrow> int64 \<Rightarrow> (byte list \<times> int) option" where
  "appendInt64_loop buf i v =
     (if 0 <s v then
        (let i1 = i - 1 in
         if 0 \<le> i1 \<and> i1 < int (length buf)
         then appendInt64_loop (buf[nat i1 := ucast (rem64 v 10) + 0x30]) i1 (div64 v 10)
         else None)
      else Some (buf, i))"
  by pat_completeness auto
termination
proof (relation "measure (\<lambda>(buf, i, v). nat (sint v))", goal_cases)
  case 1
  show ?case by simp
next
  case (2 buf i v i1)
  have pos: "0 < sint v"
    using 2 by (simp add: word_sless_alt)
  have "sint v < 2 ^ 63"
    using sint_lt [of v] by simp
  then have "sint (div64 v 10) = sint v div 10"
    using pos
    by (simp add: div64_def signed_divide_int_def sint_sbintrunc' signed_take_bit_int_eq_self)
  then show ?case
    using pos by simp
qed

declare appendInt64_loop.simps [simp del]

definition appendInt64 :: "byte list \<Rightarrow> int64 \<Rightarrow> byte list option" where
  "appendInt64 dst v =
     (if v = 0 then Some (dst @ [0x30])
      else
        let neg = (v <s 0);
            dst1 = (if neg then dst @ [0x2D] else dst)
        in
          if neg \<and> v = - 9223372036854775808 then Some (dst1 @ bs ''9223372036854775808'')
          else
            let v1 = (if neg then - v else v) in
            case appendInt64_loop (replicate 20 0) 20 v1 of
              None \<Rightarrow> None
            | Some (buf, i) \<Rightarrow> Some (dst1 @ drop (nat i) buf))"

section \<open>float64 (IEEE 754 binary64) and package math\<close>

text \<open>
  The Go specification fixes \<^verbatim>\<open>float64\<close> as IEEE 754 binary64 with round to nearest,
  ties to even. A pattern has a sign bit, 11 bits of biased exponent and 52 bits of
  fraction; a biased exponent of 0 marks a subnormal number, which has no implicit
  leading bit and the exponent of the smallest normal numbers. \<open>f64_val\<close> is the
  value of a pattern (\<open>2 ^ 1024\<close> in magnitude for an infinity, so that
  comparing values orders the infinities too), and \<open>f64_of_real\<close>
  rounds a real number to the nearest pattern: with \<open>e\<close> the integer part of the
  binary logarithm of the magnitude (\<open>floorlog 2 n\<close> is the number of bits of \<open>n\<close>), the
  magnitude is rounded to a multiple \<open>r\<close> of the unit in the last place, and the
  pattern of the result is read off \<open>r\<close>, a carry into the exponent included.
\<close>

definition f64_sign :: "float64 \<Rightarrow> bool" where
  "f64_sign v = bit v 63"

definition f64_exponent :: "float64 \<Rightarrow> nat" where
  "f64_exponent v = unat (drop_bit 52 v AND 0x7FF)"

definition f64_fraction :: "float64 \<Rightarrow> nat" where
  "f64_fraction v = unat (v AND 0xFFFFFFFFFFFFF)"

definition f64_val :: "float64 \<Rightarrow> real" where
  "f64_val v =
     (let e = f64_exponent v;
          m = (if e = 0 then f64_fraction v else 2 ^ 52 + f64_fraction v);
          a = of_nat m * 2 powi (int (max e 1) - 1075)
      in if f64_sign v then - a else a)"

definition f64_NaN :: float64 where
  "f64_NaN = 0x7FF8000000000001"

definition f64_signbit :: float64 where
  "f64_signbit = 0x8000000000000000"

definition f64_of_real :: "real \<Rightarrow> float64" where
  "f64_of_real x =
     (if x = 0 then 0
      else
        let a = \<bar>x\<bar>;
            e = (if 1 \<le> a then int (floorlog 2 (nat \<lfloor>a\<rfloor>)) - 1
                 else - int (floorlog 2 (nat (\<lceil>1 / a\<rceil> - 1))));
            e1 = max e (- 1022);
            m = a / 2 powi (e1 - 52);
            f = \<lfloor>m\<rfloor>;
            r = (if m - of_int f < 1 / 2 then f
                 else if 1 / 2 < m - of_int f then f + 1
                 else if even f then f else f + 1);
            bits = min ((e1 + 1022) * 2 ^ 52 + r) (2047 * 2 ^ 52)
        in (if x < 0 then f64_signbit else 0) OR word_of_int bits)"

definition IsNaN :: "float64 \<Rightarrow> bool" where
  "IsNaN v = (f64_exponent v = 2047 \<and> f64_fraction v \<noteq> 0)"

definition IsInf :: "float64 \<Rightarrow> int \<Rightarrow> bool" where
  "IsInf v sign =
     (f64_exponent v = 2047 \<and> f64_fraction v = 0
      \<and> ((sign \<ge> 0 \<and> \<not> f64_sign v) \<or> (sign \<le> 0 \<and> f64_sign v)))"

definition f64_is_zero :: "float64 \<Rightarrow> bool" where
  "f64_is_zero v = (f64_exponent v = 0 \<and> f64_fraction v = 0)"

definition f64_eq :: "float64 \<Rightarrow> float64 \<Rightarrow> bool" where
  "f64_eq a b = (\<not> IsNaN a \<and> \<not> IsNaN b \<and> f64_val a = f64_val b)"

definition f64_lt :: "float64 \<Rightarrow> float64 \<Rightarrow> bool" where
  "f64_lt a b = (\<not> IsNaN a \<and> \<not> IsNaN b \<and> f64_val a < f64_val b)"

definition f64_neg :: "float64 \<Rightarrow> float64" where
  "f64_neg v = v XOR f64_signbit"

text \<open>The pattern \<open>w\<close> with its sign bit set to \<open>s\<close>.\<close>

definition f64_set_sign :: "bool \<Rightarrow> float64 \<Rightarrow> float64" where
  "f64_set_sign s w = (if s then w OR f64_signbit else w AND NOT f64_signbit)"

definition f64_sub :: "float64 \<Rightarrow> float64 \<Rightarrow> float64" where
  "f64_sub a b =
     (if IsNaN a \<or> IsNaN b then f64_NaN
      else if IsInf a 0 then (if IsInf b 0 \<and> f64_sign a = f64_sign b then f64_NaN else a)
      else if IsInf b 0 then f64_neg b
      else
        let r = f64_val a - f64_val b in
        if r = 0 then f64_set_sign (f64_sign a \<and> \<not> f64_sign b) 0 else f64_of_real r)"

definition f64_add :: "float64 \<Rightarrow> float64 \<Rightarrow> float64" where
  "f64_add a b = f64_sub a (f64_neg b)"

definition f64_mul :: "float64 \<Rightarrow> float64 \<Rightarrow> float64" where
  "f64_mul a b =
     (if IsNaN a \<or> IsNaN b then f64_NaN
      else if IsInf a 0 \<or> IsInf b 0 then
        (if f64_is_zero a \<or> f64_is_zero b then f64_NaN
         else f64_set_sign (f64_sign a \<noteq> f64_sign b) 0x7FF0000000000000)
      else f64_set_sign (f64_sign a \<noteq> f64_sign b) (f64_of_real \<bar>f64_val a * f64_val b\<bar>))"

definition f64_div :: "float64 \<Rightarrow> float64 \<Rightarrow> float64" where
  "f64_div a b =
     (if IsNaN a \<or> IsNaN b then f64_NaN
      else if IsInf a 0 then
        (if IsInf b 0 then f64_NaN
         else f64_set_sign (f64_sign a \<noteq> f64_sign b) 0x7FF0000000000000)
      else if IsInf b 0 then f64_set_sign (f64_sign a \<noteq> f64_sign b) 0
      else if f64_is_zero b then
        (if f64_is_zero a then f64_NaN
         else f64_set_sign (f64_sign a \<noteq> f64_sign b) 0x7FF0000000000000)
      else f64_set_sign (f64_sign a \<noteq> f64_sign b) (f64_of_real \<bar>f64_val a / f64_val b\<bar>))"

text \<open>\<^verbatim>\<open>math.Trunc\<close> and \<^verbatim>\<open>math.Round\<close> (half away from zero); both keep the sign, and
  return a NaN or an infinity as it is.\<close>

definition Trunc :: "float64 \<Rightarrow> float64" where
  "Trunc v =
     (if f64_exponent v = 2047 then v
      else f64_set_sign (f64_sign v) (f64_of_real (of_int \<lfloor>\<bar>f64_val v\<bar>\<rfloor>)))"

definition Round :: "float64 \<Rightarrow> float64" where
  "Round v =
     (if f64_exponent v = 2047 then v
      else f64_set_sign (f64_sign v) (f64_of_real (of_int \<lfloor>\<bar>f64_val v\<bar> + 1 / 2\<rfloor>)))"

text \<open>The conversion \<^verbatim>\<open>float64(i)\<close> of an \<^verbatim>\<open>int64\<close>.\<close>

definition f64_of_int64 :: "int64 \<Rightarrow> float64" where
  "f64_of_int64 i = f64_of_real (of_int (sint i))"

text \<open>
  The conversion \<^verbatim>\<open>int64(v)\<close> truncates towards zero. Where the result does not fit, the
  Go specification leaves the value to the implementation; on amd64 the instruction
  \<^verbatim>\<open>CVTTSD2SQ\<close> gives \<open>- 2 ^ 63\<close> for every such \<open>v\<close>, a NaN included, and this is the
  value taken here.
\<close>

definition f64_to_int64 :: "float64 \<Rightarrow> int64" where
  "f64_to_int64 v =
     (if f64_exponent v = 2047 then - 9223372036854775808
      else
        let t = (if f64_sign v then - \<lfloor>\<bar>f64_val v\<bar>\<rfloor> else \<lfloor>\<bar>f64_val v\<bar>\<rfloor>) in
        if - (2 ^ 63) \<le> t \<and> t < 2 ^ 63 then word_of_int t else - 9223372036854775808)"

definition Float64bits :: "float64 \<Rightarrow> 64 word" where
  "Float64bits v = v"

definition Float64frombits :: "64 word \<Rightarrow> float64" where
  "Float64frombits b = b"

text \<open>\<^verbatim>\<open>time.Duration.Seconds\<close>: \<^verbatim>\<open>float64(d / Second) + float64(d % Second) / 1e9\<close>.\<close>

definition Seconds :: "int64 \<Rightarrow> float64" where
  "Seconds d =
     (let sec = div64 d 1000000000;
          nsec = rem64 d 1000000000
      in f64_add (f64_of_int64 sec) (f64_div (f64_of_int64 nsec) (f64_of_real 1000000000)))"

section \<open>encoder.go: floats\<close>

text \<open>
  The loop \<^verbatim>\<open>for i := 5; i >= 0; i-- { fbuf[i] = byte(fracPart%10) + '0'; fracPart /= 10 }\<close>:
  one step at index \<open>i\<close>, on the array and the remaining \<^verbatim>\<open>fracPart\<close>.
\<close>

definition fbuf_step :: "nat \<Rightarrow> byte list \<times> int64 \<Rightarrow> byte list \<times> int64" where
  "fbuf_step i st = ((fst st)[i := ucast (rem64 (snd st) 10) + 0x30], div64 (snd st) 10)"

text \<open>The loop \<^verbatim>\<open>for end > 1 && fbuf[end-1] == '0' { end-- }\<close>.\<close>

fun trimEnd :: "byte list \<Rightarrow> nat \<Rightarrow> nat" where
  "trimEnd fbuf 0 = 0"
| "trimEnd fbuf (Suc n) = (if Suc n > 1 \<and> fbuf ! (Suc n - 1) = 0x30 then trimEnd fbuf n else Suc n)"

definition appendFloat64 :: "byte list \<Rightarrow> float64 \<Rightarrow> byte list option" where
  "appendFloat64 dst v0 =
     (if IsNaN v0 then Some (dst @ [0x22] @ bs ''NaN'' @ [0x22])
      else if IsInf v0 1 then Some (dst @ [0x22] @ bs ''+Inf'' @ [0x22])
      else if IsInf v0 (- 1) then Some (dst @ [0x22] @ bs ''-Inf'' @ [0x22])
      else if f64_eq v0 0 then Some (dst @ [0x30])
      else
        let neg = f64_lt v0 0;
            v = (if neg then f64_neg v0 else v0)
        in
          if f64_eq v (Trunc v) \<and> f64_lt v (f64_of_real 1000000000000000) then
            appendInt64 (if neg then dst @ [0x2D] else dst) (f64_to_int64 v)
          else
            let dst1 = (if neg then dst @ [0x2D] else dst);
                intPart = f64_to_int64 v;
                fracPart0 = f64_to_int64
                  (Round (f64_mul (f64_sub v (f64_of_int64 intPart)) (f64_of_real 1000000)));
                fracPart = (if fracPart0 <s 0 then - fracPart0 else fracPart0)
            in
              case appendInt64 dst1 intPart of
                None \<Rightarrow> None
              | Some dst2 \<Rightarrow>
                  let dst3 = dst2 @ [0x2E];
                      fbuf = fst (fold fbuf_step [5, 4, 3, 2, 1, 0] (replicate 6 0, fracPart));
                      end = trimEnd fbuf 6
                  in Some (dst3 @ take end fbuf))"

definition appendDuration :: "byte list \<Rightarrow> int64 \<Rightarrow> byte list option" where
  "appendDuration dst d = appendFloat64 dst (Seconds d)"

text \<open>What \<^verbatim>\<open>appendFloat64\<close> appends for a value.\<close>

definition formatFloat64 :: "float64 \<Rightarrow> byte list" where
  "formatFloat64 v = (case appendFloat64 [] v of Some out \<Rightarrow> out | None \<Rightarrow> [])"

section \<open>time (Go standard library): formatting with the layout RFC3339Nano\<close>

text \<open>
  The package's \<^verbatim>\<open>appendInt(b, x, width)\<close>: a sign for a negative \<open>x\<close>, then the digits of
  the magnitude, padded with zeros on the left to \<open>width\<close> digits.
\<close>

definition time_appendInt :: "byte list \<Rightarrow> int \<Rightarrow> nat \<Rightarrow> byte list" where
  "time_appendInt b x width =
     (let b1 = (if x < 0 then b @ [0x2D] else b);
          ds = utoa (nat \<bar>x\<bar>)
      in b1 @ replicate (width - length ds) 0x30 @ ds)"

text \<open>
  The date of a day counted from 1970-01-01, in the proleptic Gregorian calendar
  (year, month, day of the month): days are counted from 0000-03-01, in eras of 400
  years, and a year starts in March, so that the leap day is its last.
\<close>

definition civil :: "int \<Rightarrow> int \<times> int \<times> int" where
  "civil days =
     (let z = days + 719468;
          era = z div 146097;
          doe = z - era * 146097;
          yoe = (doe - doe div 1460 + doe div 36524 - doe div 146096) div 365;
          y = yoe + era * 400;
          doy = doe - (365 * yoe + yoe div 4 - yoe div 100);
          mp = (5 * doy + 2) div 153;
          d = doy - (153 * mp + 2) div 5 + 1;
          m = (if mp < 10 then mp + 3 else mp - 9)
      in (if m \<le> 2 then y + 1 else y, m, d))"

text \<open>
  \<^verbatim>\<open>appendNano\<close> for the layout element \<^verbatim>\<open>.999999999\<close>: nothing for 0 nanoseconds, else
  a point and the nine digits without their trailing zeros.
\<close>

definition appendNano :: "byte list \<Rightarrow> int \<Rightarrow> byte list" where
  "appendNano b nanosec =
     (if nanosec = 0 then b
      else b @ [0x2E] @ rev (dropWhile (\<lambda>c. c = 0x30) (rev (time_appendInt [] nanosec 9))))"

text \<open>
  \<^verbatim>\<open>t.AppendFormat(b, time.RFC3339Nano)\<close>, the layout
  \<^verbatim>\<open>2006-01-02T15:04:05.999999999Z07:00\<close>: the date and the clock are those of the
  instant in the location of \<open>t\<close>; the zone is \<^verbatim>\<open>Z\<close> for an offset of 0, else the signed
  offset in hours and minutes.
\<close>

definition AppendFormat_RFC3339Nano :: "byte list \<Rightarrow> GoTime \<Rightarrow> byte list" where
  "AppendFormat_RFC3339Nano b t =
     (let offset = loc t (sec t);
          abs = sec t + offset;
          ymd = civil (abs div 86400);
          sod = abs mod 86400;
          b1 = time_appendInt b (fst ymd) 4 @ [0x2D];
          b2 = time_appendInt b1 (fst (snd ymd)) 2 @ [0x2D];
          b3 = time_appendInt b2 (snd (snd ymd)) 2 @ [0x54];
          b4 = time_appendInt b3 (sod div 3600) 2 @ [0x3A];
          b5 = time_appendInt b4 (sod mod 3600 div 60) 2 @ [0x3A];
          b6 = time_appendInt b5 (sod mod 60) 2;
          b7 = appendNano b6 (nsec t)
      in
        if offset = 0 then b7 @ [0x5A]
        else
          let zone = offset sdiv 60;
              b8 = (if zone < 0 then b7 @ [0x2D] else b7 @ [0x2B]);
              zone1 = (if zone < 0 then - zone else zone);
              b9 = time_appendInt b8 (zone1 sdiv 60) 2 @ [0x3A]
          in time_appendInt b9 (zone1 smod 60) 2)"

section \<open>field.go\<close>

type_synonym FieldType = "8 word"

definition StringType :: FieldType where "StringType = 0"
definition IntType :: FieldType where "IntType = 1"
definition Int64Type :: FieldType where "Int64Type = 2"
definition Float64Type :: FieldType where "Float64Type = 3"
definition BoolType :: FieldType where "BoolType = 4"
definition DurationType :: FieldType where "DurationType = 5"
definition ErrorType :: FieldType where "ErrorType = 6"
definition TimeType :: FieldType where "TimeType = 7"
definition BytesType :: FieldType where "BytesType = 8"

record Field =
  Key :: "byte list"
  Type :: FieldType
  Ival :: int64
  Str :: "byte list"
  Bval :: "byte list"

text \<open>
  A value of the interface type \<^verbatim>\<open>error\<close>: \<^verbatim>\<open>nil\<close>, or a value whose method
  \<^verbatim>\<open>Error()\<close> returns a text.
\<close>

datatype error = nil | errorString (Error: "byte list")

definition String :: "byte list \<Rightarrow> byte list \<Rightarrow> Field" where
  "String key val = \<lparr>Key = key, Type = StringType, Ival = 0, Str = val, Bval = []\<rparr>"

text \<open>The constructor \<^verbatim>\<open>Int\<close>; its argument is a 64-bit \<^verbatim>\<open>int\<close>.\<close>

definition Int_field :: "byte list \<Rightarrow> int64 \<Rightarrow> Field" where
  "Int_field key val = \<lparr>Key = key, Type = IntType, Ival = val, Str = [], Bval = []\<rparr>"

definition Err :: "error \<Rightarrow> Field" where
  "Err val =
     (if val = nil then \<lparr>Key = bs ''error'', Type = StringType, Ival = 0, Str = bs '''', Bval = []\<rparr>
      else \<lparr>Key = bs ''error'', Type = ErrorType, Ival = 0, Str = Error val, Bval = []\<rparr>)"

definition Bool :: "byte list \<Rightarrow> bool \<Rightarrow> Field" where
  "Bool key val = (let v = (if val then 1 else 0) in
     \<lparr>Key = key, Type = BoolType, Ival = v, Str = [], Bval = []\<rparr>)"

definition Time :: "byte list \<Rightarrow> GoTime \<Rightarrow> Field" where
  "Time key val = \<lparr>Key = key, Type = TimeType, Ival = UnixNano val, Str = [], Bval = []\<rparr>"

definition Bytes :: "byte list \<Rightarrow> byte list \<Rightarrow> Field" where
  "Bytes key val = \<lparr>Key = key, Type = BytesType, Ival = 0, Str = [], Bval = val\<rparr>"

definition Duration :: "byte list \<Rightarrow> int64 \<Rightarrow> Field" where
  "Duration key val = \<lparr>Key = key, Type = DurationType, Ival = val, Str = [], Bval = []\<rparr>"

definition Int64 :: "byte list \<Rightarrow> int64 \<Rightarrow> Field" where
  "Int64 key val = \<lparr>Key = key, Type = Int64Type, Ival = val, Str = [], Bval = []\<rparr>"

definition Float64 :: "byte list \<Rightarrow> float64 \<Rightarrow> Field" where
  "Float64 key val =
     \<lparr>Key = key, Type = Float64Type, Ival = Float64bits val, Str = [], Bval = []\<rparr>"

section \<open>encoder.go: timestamps and fields\<close>

definition appendTime :: "byte list \<Rightarrow> GoTime \<Rightarrow> byte list" where
  "appendTime dst t =
     (let dst1 = dst @ [0x22];
          dst2 = AppendFormat_RFC3339Nano dst1 t
      in dst2 @ [0x22])"

text \<open>
  \<^verbatim>\<open>appendField\<close>; \<open>local\<close> is \<^verbatim>\<open>time.Local\<close>, the location in which \<^verbatim>\<open>time.Unix\<close> makes
  its result. The switch has no default: a tag outside the nine constants appends the
  key alone.
\<close>

definition appendField :: "Location \<Rightarrow> byte list \<Rightarrow> Field \<Rightarrow> byte list option" where
  "appendField local dst0 f =
     (let dst = appendKey dst0 (Key f) in
      if Type f = StringType then Some (appendJSONString dst (Str f))
      else if Type f = IntType \<or> Type f = Int64Type then appendInt64 dst (Ival f)
      else if Type f = Float64Type then appendFloat64 dst (Float64frombits (Ival f))
      else if Type f = BoolType then Some (appendBool dst (Ival f = 1))
      else if Type f = DurationType then appendDuration dst (Ival f)
      else if Type f = ErrorType then Some (appendJSONString dst (Str f))
      else if Type f = TimeType then Some (appendTime dst (Unix0 local (Ival f)))
      else if Type f = BytesType then Some (appendJSONString dst (Bval f))
      else Some dst)"

text \<open>What \<^verbatim>\<open>appendField\<close> appends for a field, and what the loop over the fields of a call
  appends: each field after a comma, in the order of the list.\<close>

definition encodeField :: "Location \<Rightarrow> Field \<Rightarrow> byte list" where
  "encodeField local f = (case appendField local [] f of Some out \<Rightarrow> out | None \<Rightarrow> [])"

definition encodeFields :: "Location \<Rightarrow> Field list \<Rightarrow> byte list" where
  "encodeFields local fs = concat (map (\<lambda>f. 0x2C # encodeField local f) fs)"

section \<open>level.go\<close>

type_synonym Level = int32

definition DebugLevel :: Level where "DebugLevel = - 1"
definition InfoLevel :: Level where "InfoLevel = 0"
definition WarnLevel :: Level where "WarnLevel = 1"
definition ErrorLevel :: Level where "ErrorLevel = 2"
definition FatalLevel :: Level where "FatalLevel = 3"

definition levelNames :: "byte list list" where
  "levelNames = [bs ''DEBUG'', bs ''INFO'', bs ''WARN'', bs ''ERROR'', bs ''FATAL'']"

definition Level_String :: "Level \<Rightarrow> byte list" where
  "Level_String l =
     (let idx = l + 1 in
      if 0 \<le>s idx \<and> sint idx < int (length levelNames) then levelNames ! nat (sint idx)
      else bs ''UNKNOWN'')"

text \<open>An \<^verbatim>\<open>AtomicLevel\<close>; its field \<^verbatim>\<open>v\<close> is read and written in one atomic step.\<close>

record AtomicLevel =
  lv :: int32

definition NewAtomicLevel :: "Level \<Rightarrow> AtomicLevel" where
  "NewAtomicLevel l = \<lparr>lv = l\<rparr>"

definition AtomicLevel_Level :: "AtomicLevel \<Rightarrow> Level" where
  "AtomicLevel_Level al = lv al"

definition AtomicLevel_SetLevel :: "AtomicLevel \<Rightarrow> Level \<Rightarrow> AtomicLevel" where
  "AtomicLevel_SetLevel al l = al\<lparr>lv := l\<rparr>"

definition Enabled :: "AtomicLevel \<Rightarrow> Level \<Rightarrow> bool" where
  "Enabled al l = (lv al \<le>s l)"

section \<open>gohotpool: the buffer provider\<close>

text \<open>
  Modelled from the spec: the package \<^verbatim>\<open>gohotpool\<close> (its types \<^verbatim>\<open>Pool\<close> and \<^verbatim>\<open>Buffer\<close>) is
  not among the source files. By the spec's contract of the buffer provider, \<^verbatim>\<open>Get\<close>
  hands out a buffer whose storage may come from an earlier release (a fresh, empty one
  when none has been released), \<^verbatim>\<open>Put\<close> takes a buffer back, and \<^verbatim>\<open>Reset\<close> clears a
  buffer's content. The pool counts its acquisitions and releases.
\<close>

record Buffer =
  B :: "byte list"

record Pool =
  free :: "Buffer list"
  gets :: nat
  puts :: nat

definition Get :: "Pool \<Rightarrow> Buffer \<times> Pool" where
  "Get p =
     (case free p of
        [] \<Rightarrow> (\<lparr>B = []\<rparr>, p\<lparr>gets := gets p + 1\<rparr>)
      | b # rest \<Rightarrow> (b, p\<lparr>free := rest, gets := gets p + 1\<rparr>))"

definition Reset :: "Buffer \<Rightarrow> Buffer" where
  "Reset b = b\<lparr>B := []\<rparr>"

definition Put :: "Pool \<Rightarrow> Buffer \<Rightarrow> Pool" where
  "Put p b = p\<lparr>free := b # free p, puts := puts p + 1\<rparr>"

text \<open>The buffers a pool holds are empty: what \<^verbatim>\<open>Reset\<close> before every \<^verbatim>\<open>Put\<close> maintains.\<close>

definition pool_ok :: "Pool \<Rightarrow> bool" where
  "pool_ok p = list_all (\<lambda>b. B b = []) (free p)"

text \<open>A pool after one acquisition and the release of the acquired buffer, reset.\<close>

definition pool_cycle :: "Pool \<Rightarrow> Pool" where
  "pool_cycle p = Put (snd (Get p)) (Reset (fst (Get p)))"

section \<open>logger.go\<close>

text \<open>
  A \<^verbatim>\<open>*Logger\<close>, a \<^verbatim>\<open>*AtomicLevel\<close>, a \<^verbatim>\<open>*gohotpool.Pool\<close> and an \<^verbatim>\<open>io.Writer\<close> are
  references: indices into the objects of a program state. A reference outside the
  allocated objects stands for \<^verbatim>\<open>nil\<close>, and using it panics. A writer records the
  byte slices passed to its \<^verbatim>\<open>Write\<close>, in order; \<^verbatim>\<open>exited\<close> is the status of \<^verbatim>\<open>os.Exit\<close>
  once the process has been terminated.
\<close>

record Logger =
  output_w :: nat
  level :: nat
  pool :: nat
  context_b :: "byte list"

record world =
  loggers :: "Logger list"
  levels :: "AtomicLevel list"
  pools :: "Pool list"
  sinks :: "byte list list list"
  exited :: "int option"

text \<open>The fields \<^verbatim>\<open>output\<close> and \<^verbatim>\<open>context\<close> of a Logger are \<open>output_w\<close> and \<open>context_b\<close> here.\<close>

definition deref :: "'a list \<Rightarrow> nat \<Rightarrow> 'a option" where
  "deref objs p = (if p < length objs then Some (objs ! p) else None)"

text \<open>
  What a call reads of its environment: \<^verbatim>\<open>time.Local\<close>, and the clock that \<^verbatim>\<open>time.Now\<close>
  reads (seconds and nanoseconds since the Unix epoch). \<^verbatim>\<open>time.Now()\<close> is in the
  location \<^verbatim>\<open>time.Local\<close>.
\<close>

record env =
  Local :: Location
  clock_sec :: int
  clock_nsec :: int

definition Now :: "env \<Rightarrow> GoTime" where
  "Now e = \<lparr>sec = clock_sec e, nsec = clock_nsec e, loc = Local e\<rparr>"

text \<open>The loop \<^verbatim>\<open>for _, f := range fields { b = append(b, ','); b = appendField(b, f) }\<close>.\<close>

fun appendFields :: "Location \<Rightarrow> byte list \<Rightarrow> Field list \<Rightarrow> byte list option" where
  "appendFields local b [] = Some b"
| "appendFields local b (f # fs) =
     (case appendField local (b @ [0x2C]) f of
        None \<Rightarrow> None
      | Some b1 \<Rightarrow> appendFields local b1 fs)"

definition With :: "env \<Rightarrow> nat \<Rightarrow> Field list \<Rightarrow> world \<Rightarrow> (nat \<times> world) option" where
  "With e l flds w =
     (if length flds = 0 then Some (l, w)
      else do {
        lg \<leftarrow> deref (loggers w) l;
        p \<leftarrow> deref (pools w) (pool lg);
        let (buf, p1) = Get p;
        b \<leftarrow> appendFields (Local e) (B buf) flds;
        let encoded = b;
        let buf1 = Reset (buf\<lparr>B := b\<rparr>);
        let p2 = Put p1 buf1;
        let child = \<lparr>output_w = output_w lg, level = level lg, pool = pool lg,
                     context_b = (if length (context_b lg) > 0 then context_b lg @ encoded
                                else encoded)\<rparr>;
        Some (length (loggers w),
              w\<lparr>pools := (pools w)[pool lg := p2], loggers := loggers w @ [child]\<rparr>)
      })"

definition SetLevel :: "nat \<Rightarrow> Level \<Rightarrow> world \<Rightarrow> world option" where
  "SetLevel l lvl w =
     do {
       lg \<leftarrow> deref (loggers w) l;
       al \<leftarrow> deref (levels w) (level lg);
       Some (w\<lparr>levels := (levels w)[level lg := AtomicLevel_SetLevel al lvl]\<rparr>)
     }"

definition Logger_log :: "env \<Rightarrow> nat \<Rightarrow> Level \<Rightarrow> byte list \<Rightarrow> Field list \<Rightarrow> world \<Rightarrow> world option" where
  "Logger_log e l lvl msg flds w =
     do {
       lg \<leftarrow> deref (loggers w) l;
       p \<leftarrow> deref (pools w) (pool lg);
       let (buf, p1) = Get p;
       let b0 = B buf;
       let b1 = b0 @ [0x7B, 0x22] @ bs ''level'' @ [0x22, 0x3A, 0x22];
       let b2 = b1 @ Level_String lvl;
       let b3 = b2 @ [0x22, 0x2C, 0x22] @ bs ''ts'' @ [0x22, 0x3A];
       let b4 = appendTime b3 (Now e);
       let b5 = b4 @ [0x2C, 0x22] @ bs ''msg'' @ [0x22, 0x3A];
       let b6 = appendJSONString b5 msg;
       let b7 = (if length (context_b lg) > 0 then b6 @ context_b lg else b6);
       b8 \<leftarrow> appendFields (Local e) b7 flds;
       let b9 = b8 @ [0x7D, 0x0A];
       let buf1 = buf\<lparr>B := b9\<rparr>;
       snk \<leftarrow> deref (sinks w) (output_w lg);
       let w1 = w\<lparr>sinks := (sinks w)[output_w lg := snk @ [B buf1]]\<rparr>;
       let buf2 = Reset buf1;
       let p2 = Put p1 buf2;
       Some (w1\<lparr>pools := (pools w1)[pool lg := p2]\<rparr>)
     }"

text \<open>A leveled method: the gate, then \<^verbatim>\<open>log\<close>. The methods \<^verbatim>\<open>log\<close> and \<^verbatim>\<open>Error\<close> of a
  Logger are \<open>Logger_log\<close> and \<open>Logger_Error\<close> here.\<close>

definition leveled :: "Level \<Rightarrow> env \<Rightarrow> nat \<Rightarrow> byte list \<Rightarrow> Field list \<Rightarrow> world \<Rightarrow> world option" where
  "leveled lvl e l msg flds w =
     do {
       lg \<leftarrow> deref (loggers w) l;
       al \<leftarrow> deref (levels w) (level lg);
       if \<not> Enabled al lvl then Some w
       else Logger_log e l lvl msg flds w
     }"

definition Debug :: "env \<Rightarrow> nat \<Rightarrow> byte list \<Rightarrow> Field list \<Rightarrow> world \<Rightarrow> world option" where
  "Debug = leveled DebugLevel"

definition Info :: "env \<Rightarrow> nat \<Rightarrow> byte list \<Rightarrow> Field list \<Rightarrow> world \<Rightarrow> world option" where
  "Info = leveled InfoLevel"

definition Warn :: "env \<Rightarrow> nat \<Rightarrow> byte list \<Rightarrow> Field list \<Rightarrow> world \<Rightarrow> world option" where
  "Warn = leveled WarnLevel"

definition Logger_Error :: "env \<Rightarrow> nat \<Rightarrow> byte list \<Rightarrow> Field list \<Rightarrow> world \<Rightarrow> world option" where
  "Logger_Error = leveled ErrorLevel"

text \<open>\<^verbatim>\<open>Fatal\<close>: \<^verbatim>\<open>log\<close> with no gate, then \<^verbatim>\<open>os.Exit(1)\<close>.\<close>

definition Fatal :: "env \<Rightarrow> nat \<Rightarrow> byte list \<Rightarrow> Field list \<Rightarrow> world \<Rightarrow> world option" where
  "Fatal e l msg flds w =
     do {
       w1 \<leftarrow> Logger_log e l FatalLevel msg flds w;
       Some (w1\<lparr>exited := Some 1\<rparr>)
     }"

text \<open>
  The state after \<^verbatim>\<open>New(Config{Output: out, Level: lvl})\<close> for a writer \<^verbatim>\<open>out\<close> that has
  received nothing yet: one logger with no context, its level gate, its pool with no
  buffer released so far, and the writer.
\<close>

definition world0 :: "Level \<Rightarrow> world" where
  "world0 lvl =
     \<lparr>loggers = [\<lparr>output_w = 0, level = 0, pool = 0, context_b = []\<rparr>],
      levels = [NewAtomicLevel lvl],
      pools = [\<lparr>free = [], gets = 0, puts = 0\<rparr>],
      sinks = [[]],
      exited = None\<rparr>"

text \<open>
  Two environments with the clock at 1771367400 seconds and 123456789 nanoseconds since
  the epoch: one with \<^verbatim>\<open>time.Local\<close> at UTC, one with \<^verbatim>\<open>time.Local\<close> five and a half hours
  east of it.
\<close>

definition env_utc :: env where
  "env_utc = \<lparr>Local = UTC, clock_sec = 1771367400, clock_nsec = 123456789\<rparr>"

definition env_east :: env where
  "env_east = \<lparr>Local = (\<lambda>_. 19800), clock_sec = 1771367400, clock_nsec = 123456789\<rparr>"

section \<open>The wire format\<close>

text \<open>
  A record as the spec's wire format has it: the keys \<^verbatim>\<open>level\<close>, \<^verbatim>\<open>ts\<close> and \<^verbatim>\<open>msg\<close> in this
  order, with the level's name, the timestamp \<open>ts\<close> and the escaped message as quoted
  strings, then the bytes \<open>ctx\<close> of the inherited context and the bytes \<open>fs\<close> of the
  fields of the call (each field after a comma), the closing brace and a newline.
\<close>

definition wire_record :: "byte list \<Rightarrow> byte list \<Rightarrow> byte list \<Rightarrow> byte list \<Rightarrow> byte list \<Rightarrow> byte list" where
  "wire_record name ts msg ctx fs =
     [0x7B, 0x22] @ bs ''level'' @ [0x22, 0x3A, 0x22] @ name
     @ [0x22, 0x2C, 0x22] @ bs ''ts'' @ [0x22, 0x3A, 0x22] @ ts
     @ [0x22, 0x2C, 0x22] @ bs ''msg'' @ [0x22, 0x3A, 0x22] @ escaped msg @ [0x22]
     @ ctx @ fs @ [0x7D, 0x0A]"

text \<open>\<^verbatim>\<open>t.UTC()\<close>: the instant of \<open>t\<close> in the location UTC.\<close>

definition In_UTC :: "GoTime \<Rightarrow> GoTime" where
  "In_UTC t = t\<lparr>loc := UTC\<rparr>"

section \<open>Properties of the field constructors\<close>

text \<open>
  C7: \<^verbatim>\<open>Err(nil)\<close> is a String-tagged field with the empty string as its value;
  \<^verbatim>\<open>Err(e)\<close> for a non-nil \<open>e\<close> is an Error-tagged field whose value is \<^verbatim>\<open>e.Error()\<close>;
  in both cases the key is \<^verbatim>\<open>"error"\<close>. Every other constructor takes its key from its
  first argument.
\<close>

theorem Err_fixed_key:
  "Err nil = \<lparr>Key = bs ''error'', Type = StringType, Ival = 0, Str = [], Bval = []\<rparr>
   \<and> (e \<noteq> nil \<longrightarrow>
        Err e = \<lparr>Key = bs ''error'', Type = ErrorType, Ival = 0, Str = Error e, Bval = []\<rparr>)
   \<and> Key (Err e) = bs ''error''
   \<and> Key (String k sv) = k
   \<and> Key (Int_field k iv) = k
   \<and> Key (Int64 k iv) = k
   \<and> Key (Float64 k fv) = k
   \<and> Key (Bool k bv) = k
   \<and> Key (Duration k iv) = k
   \<and> Key (Time k tv) = k
   \<and> Key (Bytes k sv) = k"
  by (simp add: Err_def String_def Int_field_def Int64_def Float64_def Bool_def Duration_def
      Time_def Bytes_def bs_def Let_def)

theorem Err_fixed_key_witness:
  "Err (errorString (bs ''unexpected EOF'')) =
     \<lparr>Key = bs ''error'', Type = ErrorType, Ival = 0, Str = bs ''unexpected EOF'', Bval = []\<rparr>
   \<and> Err nil = \<lparr>Key = bs ''error'', Type = StringType, Ival = 0, Str = [], Bval = []\<rparr>
   \<and> Key (String (bs ''table'') (bs ''users'')) = bs ''table''"
  using Err_fixed_key [of "errorString (bs ''unexpected EOF'')" "bs ''table''" "bs ''users''"]
  by simp

section \<open>Properties of the integer formatter\<close>

lemma sint64_of_int: "- (2 ^ 63) \<le> x \<Longrightarrow> x < 2 ^ 63 \<Longrightarrow> sint (word_of_int x :: 64 word) = x"
  by (simp add: sint_sbintrunc' signed_take_bit_int_eq_self)

lemma sint_div64_10: "0 \<le> sint v \<Longrightarrow> sint (div64 v 10) = sint v div 10"
  using sint_lt [of v]
  by (simp add: div64_def signed_divide_int_def sint64_of_int sgn_if)

lemma digit_rem64: "0 \<le> sint v \<Longrightarrow> (ucast (rem64 v 10) :: byte) = of_nat (nat (sint v) mod 10)"
proof -
  assume pos: "0 \<le> sint v"
  have down: "is_down (ucast :: 64 word \<Rightarrow> 8 word)"
    by (simp add: is_down)
  have "sint v smod 10 = sint v mod 10"
    using pos by (simp add: signed_modulo_int_def sgn_if)
  then have "(ucast (rem64 v 10) :: byte) = word_of_int (sint v mod 10)"
    by (simp add: rem64_def ucast_down_wi [OF down])
  also have "sint v mod 10 = int (nat (sint v) mod 10)"
    using pos by (simp add: zmod_int)
  finally show ?thesis
    by simp
qed

lemma utoa_udigits: "0 < n \<Longrightarrow> utoa n = udigits n"
proof (induction n rule: utoa.induct)
  case (1 n)
  show ?case
  proof (cases "n < 10")
    case True
    with 1(2) show ?thesis
      by (simp add: utoa.simps [of n] udigits.simps [of n] udigits.simps [of 0])
  next
    case False
    with 1 have "utoa (n div 10) = udigits (n div 10)"
      by simp
    with False show ?thesis
      by (simp add: utoa.simps [of n] udigits.simps [of n])
  qed
qed

lemma length_udigits: "n < 10 ^ k \<Longrightarrow> length (udigits n) \<le> k"
proof (induction n arbitrary: k rule: udigits.induct)
  case (1 n)
  show ?case
  proof (cases "n = 0")
    case True
    then show ?thesis by (simp add: udigits.simps [of 0])
  next
    case False
    then obtain j where k: "k = Suc j"
      using 1(2) by (cases k) auto
    have "n div 10 < 10 ^ j"
      using 1(2) k by (simp add: less_mult_imp_div_less mult.commute)
    with 1(1) False have "length (udigits (n div 10)) \<le> j"
      by simp
    with False k show ?thesis
      by (simp add: udigits.simps [of n])
  qed
qed

lemma appendInt64_loop_eq:
  "0 \<le> sint v \<Longrightarrow> int (length (udigits (nat (sint v)))) \<le> i \<Longrightarrow> i \<le> int (length buf) \<Longrightarrow>
   \<exists>buf'. appendInt64_loop buf i v = Some (buf', i - int (length (udigits (nat (sint v)))))
     \<and> length buf' = length buf
     \<and> drop (nat (i - int (length (udigits (nat (sint v)))))) buf' = udigits (nat (sint v)) @ drop (nat i) buf"
proof (induction buf i v rule: appendInt64_loop.induct)
  case (1 buf i v)
  show ?case
  proof (cases "0 <s v")
    case False
    with 1(2) have "sint v = 0"
      by (simp add: word_sless_alt)
    with False show ?thesis
      by (simp add: appendInt64_loop.simps [of buf i v] udigits.simps [of 0])
  next
    case True
    then have pos: "0 < sint v"
      by (simp add: word_sless_alt)
    let ?n = "nat (sint v)"
    let ?d = "0x30 + of_nat (?n mod 10) :: byte"
    have n: "?n \<noteq> 0" using pos by simp
    have ud: "udigits ?n = udigits (?n div 10) @ [?d]"
      using n by (simp add: udigits.simps [of ?n])
    have sd: "sint (div64 v 10) = sint v div 10"
      using pos by (simp add: sint_div64_10)
    then have nd: "nat (sint (div64 v 10)) = ?n div 10"
      using pos by (simp add: nat_div_distrib)
    have i1: "0 \<le> i - 1" "i - 1 < int (length buf)"
      using 1(3,4) ud by simp_all
    let ?buf1 = "buf[nat (i - 1) := ucast (rem64 v 10) + 0x30]"
    have dig: "(ucast (rem64 v 10) + 0x30 :: byte) = ?d"
      using pos by (simp add: digit_rem64)
    have "\<exists>buf'. appendInt64_loop ?buf1 (i - 1) (div64 v 10)
              = Some (buf', i - 1 - int (length (udigits (nat (sint (div64 v 10))))))
       \<and> length buf' = length ?buf1
       \<and> drop (nat (i - 1 - int (length (udigits (nat (sint (div64 v 10))))))) buf'
           = udigits (nat (sint (div64 v 10))) @ drop (nat (i - 1)) ?buf1"
    proof (rule 1(1) [OF True refl])
      show "0 \<le> i - 1 \<and> i - 1 < int (length buf)" using i1 by simp
      show "0 \<le> sint (div64 v 10)" using sd pos by simp
      show "int (length (udigits (nat (sint (div64 v 10))))) \<le> i - 1"
        using 1(3) ud nd by simp
      show "i - 1 \<le> int (length ?buf1)" using i1 by simp
    qed
    then obtain buf' where
      loop: "appendInt64_loop ?buf1 (i - 1) (div64 v 10) = Some (buf', i - 1 - int (length (udigits (?n div 10))))"
      and len: "length buf' = length buf"
      and dr: "drop (nat (i - 1 - int (length (udigits (?n div 10))))) buf' = udigits (?n div 10) @ drop (nat (i - 1)) ?buf1"
      using nd by auto
    have "drop (nat (i - 1)) ?buf1 = ?d # drop (nat i) buf"
    proof -
      have "nat (i - 1) < length buf" using i1 by simp
      then have "drop (nat (i - 1)) ?buf1 = ?buf1 ! nat (i - 1) # drop (Suc (nat (i - 1))) ?buf1"
        by (simp add: Cons_nth_drop_Suc [symmetric])
      moreover have "Suc (nat (i - 1)) = nat i" using i1 by simp
      ultimately show ?thesis
        using i1 dig by (simp add: add.commute)
    qed
    with dr have dr': "drop (nat (i - 1 - int (length (udigits (?n div 10))))) buf' = udigits ?n @ drop (nat i) buf"
      using ud by simp
    have idx: "i - 1 - int (length (udigits (?n div 10))) = i - int (length (udigits ?n))"
      using ud by simp
    show ?thesis
      using True i1 loop len dr' idx
      by (simp add: appendInt64_loop.simps [of buf i v])
  qed
qed

lemma appendInt64_loop_pos:
  assumes "0 < sint v"
  shows "\<exists>buf' i'. appendInt64_loop (replicate 20 0) 20 v = Some (buf', i')
     \<and> drop (nat i') buf' = utoa (nat (sint v))"
proof -
  have "nat (sint v) < 10 ^ 19"
    using sint_lt [of v] assms by simp
  then have "length (udigits (nat (sint v))) \<le> 19"
    by (rule length_udigits)
  then have "int (length (udigits (nat (sint v)))) \<le> 20"
    by simp
  from appendInt64_loop_eq [of v 20 "replicate 20 0", OF _ this] assms
  show ?thesis
    by (auto simp: utoa_udigits)
qed

lemma appendInt64_eq: "appendInt64 dst v = Some (dst @ decimal (sint v))"
proof (cases "v = 0")
  case True
  then show ?thesis
    by (simp add: appendInt64_def decimal_def utoa.simps [of 0])
next
  case nz: False
  show ?thesis
  proof (cases "v <s 0")
    case False
    then have "0 < sint v"
      using nz signed_eq_0_iff [of v, where ?'a = int] by (simp add: word_sless_alt)
    from appendInt64_loop_pos [OF this] False nz \<open>0 < sint v\<close> show ?thesis
      by (auto simp: appendInt64_def Let_def decimal_def)
  next
    case True
    then have neg: "sint v < 0"
      by (simp add: word_sless_alt)
    show ?thesis
    proof (cases "v = - 9223372036854775808")
      case True
      have "utoa 9223372036854775808 = bs ''9223372036854775808''"
        by (simp add: utoa.simps bs_def)
      then show ?thesis
        using True by (simp add: appendInt64_def decimal_def word_sless_alt)
    next
      case False
      have "sint v \<noteq> - (2 ^ 63)"
      proof
        assume "sint v = - (2 ^ 63)"
        then have "sint v = sint (- 9223372036854775808 :: 64 word)"
          by simp
        then have "v = - 9223372036854775808"
          by (rule signed_word_eqI)
        with False show False
          by simp
      qed
      then have lo: "- (2 ^ 63) < sint v"
        using sint_ge [of v] by simp
      have "- v = word_of_int (- sint v)"
        by simp
      then have sm: "sint (- v) = - sint v"
        using lo neg sint64_of_int [of "- sint v"] by simp
      then have "0 < sint (- v)"
        using neg by simp
      from appendInt64_loop_pos [OF this] False True nz neg sm show ?thesis
        by (auto simp: appendInt64_def Let_def decimal_def)
    qed
  qed
qed

lemma digit_back: "k < 10 \<Longrightarrow> unat (of_nat k :: byte) = k"
  by (simp add: unat_of_nat)

lemma digits_value_snoc: "digits_value (ds @ [d]) = 10 * digits_value ds + unat (d - 0x30)"
  by (simp add: digits_value_def)

lemma digits_value_utoa: "digits_value (utoa n) = n"
proof (induction n rule: utoa.induct)
  case (1 n)
  show ?case
  proof (cases "n < 10")
    case True
    then show ?thesis
      by (simp add: utoa.simps [of n] digits_value_def digit_back)
  next
    case False
    with 1 have "digits_value (utoa (n div 10)) = n div 10"
      by simp
    with False show ?thesis
      by (simp add: utoa.simps [of n] digits_value_snoc digit_back)
  qed
qed

lemma is_digit_of_nat: "k < 10 \<Longrightarrow> is_digit (0x30 + of_nat k)"
proof -
  assume k: "k < 10"
  then have "unat (0x30 + of_nat k :: byte) = 48 + k"
    by (simp add: unat_word_ariths unat_of_nat)
  with k show ?thesis
    by (simp add: is_digit_def word_le_nat_alt)
qed

lemma digits_utoa: "list_all is_digit (utoa n)"
proof (induction n rule: utoa.induct)
  case (1 n)
  then show ?case
    by (cases "n < 10") (simp_all add: utoa.simps [of n] is_digit_of_nat)
qed

lemma utoa_not_Nil: "utoa n \<noteq> []"
  by (simp add: utoa.simps [of n])

lemma hd_utoa: "0 < n \<Longrightarrow> hd (utoa n) \<noteq> 0x30"
proof (induction n rule: utoa.induct)
  case (1 n)
  show ?case
  proof (cases "n < 10")
    case True
    have "unat (0x30 + of_nat n :: byte) = 48 + n"
      using True by (simp add: unat_word_ariths unat_of_nat)
    moreover have "unat (0x30 :: byte) = 48"
      by simp
    ultimately have "(0x30 + of_nat n :: byte) \<noteq> 0x30"
      using 1(2) by (metis add_cancel_right_right less_numeral_extra(3))
    then show ?thesis
      using True by (simp add: utoa.simps [of n])
  next
    case False
    with 1 have "hd (utoa (n div 10)) \<noteq> 0x30"
      by simp
    with False show ?thesis
      by (simp add: utoa.simps [of n] utoa_not_Nil)
  qed
qed

text \<open>
  C8: for every signed 64-bit integer \<open>v\<close>, \<^verbatim>\<open>appendInt64\<close> returns (it does not panic) and
  appends exactly the decimal representation of \<open>v\<close>: a minus sign for a negative
  value, then the digits of the magnitude, which are decimal digits, denote the
  magnitude and have no leading zero; the single character \<^verbatim>\<open>0\<close> for zero; and
  \<^verbatim>\<open>-9223372036854775808\<close> for the minimum value.
\<close>

theorem appendInt64_decimal:
  "appendInt64 dst v = Some (dst @ decimal (sint v))
   \<and> decimal (sint v) = (if sint v < 0 then [0x2D] else []) @ utoa (nat \<bar>sint v\<bar>)
   \<and> list_all is_digit (utoa (nat \<bar>sint v\<bar>))
   \<and> digits_value (utoa (nat \<bar>sint v\<bar>)) = nat \<bar>sint v\<bar>
   \<and> (v \<noteq> 0 \<longrightarrow> hd (utoa (nat \<bar>sint v\<bar>)) \<noteq> 0x30)
   \<and> appendInt64 dst 0 = Some (dst @ bs ''0'')
   \<and> appendInt64 dst (- 9223372036854775808) = Some (dst @ bs ''-9223372036854775808'')"
proof -
  have "v \<noteq> 0 \<Longrightarrow> 0 < nat \<bar>sint v\<bar>"
    using signed_eq_0_iff [of v, where ?'a = int] by simp
  moreover have "decimal (- 9223372036854775808) = bs ''-9223372036854775808''"
    by (simp add: decimal_def utoa.simps bs_def)
  moreover have "decimal 0 = bs ''0''"
    by (simp add: decimal_def utoa.simps bs_def)
  moreover have "sint (- 9223372036854775808 :: 64 word) = - 9223372036854775808"
    by simp
  ultimately show ?thesis
    using appendInt64_eq [of dst "- 9223372036854775808"] appendInt64_eq [of dst 0]
    by (simp add: appendInt64_eq decimal_def digits_utoa digits_value_utoa hd_utoa)
qed

theorem appendInt64_decimal_witness:
  "appendInt64 (bs ''n='') (- 42) = Some (bs ''n=-42'')
   \<and> hd (utoa 42) \<noteq> 0x30
   \<and> appendInt64 [] 9223372036854775807 = Some (bs ''9223372036854775807'')"
proof -
  have "sint (- 42 :: 64 word) = - 42" "sint (9223372036854775807 :: 64 word) = 9223372036854775807"
    by simp_all
  moreover have "decimal (- 42) = bs ''-42''"
    "decimal 9223372036854775807 = bs ''9223372036854775807''"
    by (simp_all add: decimal_def utoa.simps bs_def)
  ultimately show ?thesis
    using appendInt64_decimal [of "bs ''n=''" "- 42"] appendInt64_decimal [of "[]" 9223372036854775807]
    by (simp add: bs_def)
qed

section \<open>Properties of the string escaper\<close>

lemma scanSafe_takeWhile:
  "i \<le> length s \<Longrightarrow> scanSafe s i = i + length (takeWhile safeSet (drop i s))"
proof (induction s i rule: scanSafe.induct)
  case (1 s i)
  show ?case
  proof (cases "i < length s \<and> safeSet (s ! i)")
    case True
    then have d: "drop i s = s ! i # drop (Suc i) s"
      by (simp add: Cons_nth_drop_Suc)
    from True 1 have "scanSafe s (i + 1) = i + 1 + length (takeWhile safeSet (drop (i + 1) s))"
      by simp
    with True d show ?thesis
      by (simp add: scanSafe.simps [of s i])
  next
    case False
    show ?thesis
    proof (cases "i < length s")
      case True
      then have "drop i s = s ! i # drop (Suc i) s"
        by (simp add: Cons_nth_drop_Suc)
      with False True show ?thesis
        by (simp add: scanSafe.simps [of s i])
    next
      case False
      with 1(2) have "i = length s" by simp
      then show ?thesis
        by (subst scanSafe.simps) simp
    qed
  qed
qed

lemma escaped_safe_run: "list_all safeSet r \<Longrightarrow> escaped (r @ rest) = r @ escaped rest"
  by (induction r) (simp_all add: escaped.simps(2))

lemma escaped_takeWhile: "escaped xs = takeWhile safeSet xs @ escaped (dropWhile safeSet xs)"
proof -
  have "list_all safeSet (takeWhile safeSet xs)"
    by (simp add: list_all_iff) (meson set_takeWhileD)
  from escaped_safe_run [OF this, of "dropWhile safeSet xs"] show ?thesis
    by simp
qed

lemma first_cases:
  "first b = 0xF0 \<or> first b = 0xF1 \<or> first b = 0x02 \<or> first b = 0x13 \<or> first b = 0x03
   \<or> first b = 0x23 \<or> first b = 0x34 \<or> first b = 0x04 \<or> first b = 0x44"
  by (simp add: first_def)

lemma DecodeRuneInString_size:
  assumes "xs \<noteq> []"
  shows "1 \<le> snd (DecodeRuneInString xs) \<and> snd (DecodeRuneInString xs) \<le> length xs"
proof -
  from assms obtain b rest where xs: "xs = b # rest"
    by (cases xs) auto
  from first_cases [of b] show ?thesis
    by (elim disjE) (auto simp: xs DecodeRuneInString_def Let_def acceptRanges_def Suc_le_eq)
qed

lemma appendEscapedString_from_eq:
  "i0 \<le> length s \<Longrightarrow> appendEscapedString_from dst s i0 = dst @ escaped (drop i0 s)"
proof (induction dst s i0 rule: appendEscapedString_from.induct)
  case (1 dst s i0)
  show ?case
  proof (cases "i0 < length s")
    case False
    with 1(3) have "i0 = length s" by simp
    then show ?thesis
      by (subst appendEscapedString_from.simps) simp
  next
    case lt: True
    define i where "i = scanSafe s i0"
    define run where "run = takeWhile safeSet (drop i0 s)"
    define dst1 where "dst1 = (if i > i0 then dst @ slice s i0 i else dst)"
    have i: "i = i0 + length run"
      using lt by (simp add: i_def run_def scanSafe_takeWhile)
    have le: "i \<le> length s"
      using i length_takeWhile_le [of safeSet "drop i0 s"] lt by (simp add: run_def)
    have run: "slice s i0 i = run"
      unfolding slice_def i run_def
      by (simp add: takeWhile_eq_take [symmetric])
    have dst1: "dst1 = dst @ run"
      using i run by (auto simp: dst1_def)
    have rest: "drop i s = dropWhile safeSet (drop i0 s)"
      unfolding i run_def by (simp add: dropWhile_eq_drop add.commute)
    have split: "escaped (drop i0 s) = run @ escaped (drop i s)"
      using escaped_takeWhile [of "drop i0 s"] by (simp add: run_def rest)
    have unfold: "appendEscapedString_from dst s i0 =
       (if i \<ge> length s then dst1
        else if s ! i \<ge> RuneSelf then
          appendEscapedString_from
            (if fst (DecodeRuneInString (drop i s)) = RuneError \<and> snd (DecodeRuneInString (drop i s)) = 1
             then dst1 @ [0x5C, 0x75, 0x66, 0x66, 0x66, 0x64]
             else dst1 @ slice s i (i + snd (DecodeRuneInString (drop i s))))
            s (i + snd (DecodeRuneInString (drop i s)))
        else appendEscapedString_from (dst1 @ escapeByte (s ! i)) s (i + 1))"
      using lt by (subst appendEscapedString_from.simps) (simp add: i_def dst1_def Let_def)
    show ?thesis
    proof (cases "i \<ge> length s")
      case True
      with le have "drop i s = []" by simp
      with True split dst1 show ?thesis
        by (simp add: unfold)
    next
      case False
      then have ilt: "i < length s" by simp
      define b where "b = s ! i"
      have d: "drop i s = b # drop (Suc i) s"
        using ilt by (simp add: b_def Cons_nth_drop_Suc)
      have unsafe: "\<not> safeSet b"
        using rest d by (metis dropWhile_eq_Cons_conv)
      show ?thesis
      proof (cases "b \<ge> RuneSelf")
        case True
        define rs where "rs = DecodeRuneInString (drop i s)"
        define dst2 where "dst2 = (if fst rs = RuneError \<and> snd rs = 1
                            then dst1 @ [0x5C, 0x75, 0x66, 0x66, 0x66, 0x64]
                            else dst1 @ slice s i (i + snd rs))"
        have sz: "1 \<le> snd rs" "snd rs \<le> length (drop i s)"
          using DecodeRuneInString_size [of "drop i s"] d by (simp_all add: rs_def)
        define chunk where "chunk = (if fst rs = RuneError \<and> snd rs = 1
                            then [0x5C, 0x75, 0x66, 0x66, 0x66, 0x64]
                            else take (snd rs) (drop i s))"
        have d2: "dst2 = dst1 @ chunk"
          by (simp add: dst2_def chunk_def slice_def)
        have "appendEscapedString_from dst s i0 = appendEscapedString_from dst2 s (i + snd rs)"
          using False True by (simp add: unfold b_def rs_def dst2_def)
        also have "\<dots> = dst2 @ escaped (drop (i + snd rs) s)"
          using 1(1) [OF lt refl i_def dst1_def False b_def True rs_def dst2_def] sz by simp
        also have "\<dots> = dst @ run @ chunk @ escaped (drop (snd rs) (drop i s))"
          by (simp add: d2 dst1 add.commute)
        also have "chunk @ escaped (drop (snd rs) (drop i s)) = escaped (drop i s)"
          using unsafe True by (simp add: d escaped.simps(2) Let_def rs_def chunk_def)
        finally show ?thesis
          by (simp add: split)
      next
        case nb: False
        have "appendEscapedString_from dst s i0 = appendEscapedString_from (dst1 @ escapeByte b) s (i + 1)"
          using False nb by (simp add: unfold b_def)
        also have "\<dots> = dst1 @ escapeByte b @ escaped (drop (i + 1) s)"
          using 1(2) [OF lt refl i_def dst1_def False b_def nb] ilt by simp
        also have "escapeByte b @ escaped (drop (i + 1) s) = escaped (drop i s)"
          using unsafe nb by (simp add: d escaped.simps(2))
        finally show ?thesis
          by (simp add: split dst1)
      qed
    qed
  qed
qed

lemma appendEscapedString_eq: "appendEscapedString dst s = dst @ escaped s"
  by (simp add: appendEscapedString_def appendEscapedString_from_eq)

lemma byte_eq_unat: "(b :: byte) = numeral k \<longleftrightarrow> unat b = unat (numeral k :: byte)"
  by (simp only: word_unat_eq_iff)

lemma first_unat:
  "first b =
     (if unat b < 0x80 then 0xF0
      else if unat b < 0xC2 then 0xF1
      else if unat b < 0xE0 then 0x02
      else if unat b = 0xE0 then 0x13
      else if unat b < 0xED then 0x03
      else if unat b = 0xED then 0x23
      else if unat b < 0xF0 then 0x03
      else if unat b = 0xF0 then 0x34
      else if unat b < 0xF4 then 0x04
      else if unat b = 0xF4 then 0x44
      else 0xF1)"
  by (simp add: first_def word_less_nat_alt byte_eq_unat)

lemmas utf8_unat = cont_def word_le_nat_alt word_less_nat_alt byte_eq_unat first_unat
  acceptRanges_def DecodeRuneInString_def Let_def RuneSelf_def





lemma utf8_seq_high: "utf8_seq q \<Longrightarrow> list_all (\<lambda>b. b \<ge> 0x80) q"
  by (cases q rule: utf8_seq.cases) (auto simp: cont_def word_le_nat_alt byte_eq_unat)

lemma mask_xx: "signed_drop_bit 31 (push_bit 31 (ucast (0xF1 :: byte) :: 32 word)) = - 1"
  by code_simp

lemma mask_as: "signed_drop_bit 31 (push_bit 31 (ucast (0xF0 :: byte) :: 32 word)) = 0"
  by code_simp

lemma rune_err: "(ucast (b :: byte) AND NOT (- 1 :: 32 word)) OR (RuneError AND - 1) = RuneError"
  by simp

lemma rune_self: "(ucast (b :: byte) AND NOT (0 :: 32 word)) OR (RuneError AND 0) = ucast b"
  by simp

lemma list_len_cases:
  obtains "xs = []" | a where "xs = [a]" | a b where "xs = [a, b]" | a b c ys where "xs = a # b # c # ys"
  by (metis list.exhaust)

lemma Decode_high_cases:
  assumes "0x80 \<le> b"
  shows "DecodeRuneInString (b # rest) = (RuneError, 1)
     \<or> (2 \<le> snd (DecodeRuneInString (b # rest))
         \<and> utf8_seq (take (snd (DecodeRuneInString (b # rest))) (b # rest)))"
  using assms
  by (cases rest rule: list_len_cases) (auto simp: utf8_unat mask_xx mask_as split: if_splits)

lemma list_len_cases4:
  obtains "xs = []" | a where "xs = [a]" | a b where "xs = [a, b]" | a b c where "xs = [a, b, c]"
  | a b c d ys where "xs = a # b # c # d # ys"
  by (metis list.exhaust)

lemma Decode_append_ascii:
  assumes "xs \<noteq> []" and "c < 0x80"
  shows "DecodeRuneInString (xs @ c # ys) = DecodeRuneInString xs"
  using assms
  by (cases xs rule: list_len_cases4) (auto simp: utf8_unat mask_xx mask_as split: if_splits)

lemma nibble_cases:
  assumes "(n :: byte) < 16"
  shows "n \<in> word_of_nat ` {..<16}"
proof -
  have "unat n < 16"
    using assms by (simp add: word_less_nat_alt)
  moreover have "n = word_of_nat (unat n)"
    by simp
  ultimately show ?thesis
    by blast
qed


lemma hexDigit_not_DEL: "n < 16 \<Longrightarrow> hexDigit n \<noteq> 0x7F"
  by (drule nibble_cases) (auto simp: lessThan_nat_numeral lessThan_Suc hexDigit_def)

lemma high_nibble: "drop_bit 4 (b :: byte) < 16" "unat (drop_bit 4 b) = unat b div 16"
proof -
  show u: "unat (drop_bit 4 b) = unat b div 16"
    by (simp add: unat_drop_bit_eq drop_bit_eq_div unat_div)
  have "unat b < 256"
    using unsigned_less [of b, where ?'a = nat] by simp
  then show "drop_bit 4 b < 16"
    by (simp add: word_less_nat_alt u)
qed

lemma low_nibble: "(b :: byte) AND 0x0F < 16" "unat (b AND 0x0F) = unat b mod 16"
proof -
  have "b AND 0x0F = take_bit 4 b"
    by (simp add: take_bit_eq_mask mask_eq_exp_minus_1)
  then show u: "unat (b AND 0x0F) = unat b mod 16"
    by (simp add: unsigned_take_bit_eq take_bit_eq_mod unat_mod)
  show "b AND 0x0F < 16"
    by (simp add: word_less_nat_alt u)
qed


lemma safeSet_ascii: "safeSet b \<Longrightarrow> b < 0x80 \<and> b \<noteq> 0x7F"
  by (auto simp: safeSet_def word_le_nat_alt word_less_nat_alt)

lemma escaped_ascii_unsafe:
  "\<not> safeSet b \<Longrightarrow> b < 0x80 \<Longrightarrow> escaped (b # rest) = escapeByte b @ escaped rest"
  by (simp add: escaped.simps(2) RuneSelf_def word_le_nat_alt word_less_nat_alt)

lemma escaped_high:
  "0x80 \<le> b \<Longrightarrow> escaped (b # rest) =
     (if DecodeRuneInString (b # rest) = (RuneError, 1) then [0x5C, 0x75, 0x66, 0x66, 0x66, 0x64]
      else take (snd (DecodeRuneInString (b # rest))) (b # rest))
     @ escaped (drop (snd (DecodeRuneInString (b # rest))) (b # rest))"
proof -
  assume h: "0x80 \<le> b"
  then have "\<not> safeSet b"
    using safeSet_ascii [of b] by (auto simp: word_le_nat_alt word_less_nat_alt)
  with h show ?thesis
    by (simp add: escaped.simps(2) RuneSelf_def Let_def prod_eq_iff)
qed



lemma escaped_append_ascii:
  "c < 0x80 \<Longrightarrow> escaped (pre @ c # post) = escaped pre @ escaped (c # post)"
proof (induction pre rule: escaped.induct)
  case 1
  show ?case by simp
next
  case (2 b rest)
  show ?case
  proof (cases "safeSet b")
    case True
    with 2 show ?thesis
      by (simp add: escaped.simps(2))
  next
    case unsafe: False
    show ?thesis
    proof (cases "b \<ge> RuneSelf")
      case True
      define rs where "rs = DecodeRuneInString (b # rest)"
      have same: "DecodeRuneInString ((b # rest) @ c # post) = rs"
        using Decode_append_ascii [of "b # rest" c post] 2(4) by (simp add: rs_def)
      have sz: "snd rs \<le> length (b # rest)"
        using DecodeRuneInString_size [of "b # rest"] by (simp add: rs_def)
      have IH: "escaped (drop (snd rs) (b # rest) @ c # post)
          = escaped (drop (snd rs) (b # rest)) @ escaped (c # post)"
        using 2(2) [OF unsafe True rs_def 2(4)] .
      have "take n (xs @ ys) = take n xs" "drop n (xs @ ys) = drop n xs @ ys"
        if "n \<le> length xs" for n and xs ys :: "byte list"
        using that by simp_all
      from this [of "snd rs" "b # rest" "c # post", OF sz]
      have t: "take (snd rs) (b # rest @ c # post) = take (snd rs) (b # rest)"
        and d: "drop (snd rs) (b # rest @ c # post) = drop (snd rs) (b # rest) @ c # post"
        by simp_all
      have "escaped ((b # rest) @ c # post) =
          (if fst rs = RuneError \<and> snd rs = 1 then [0x5C, 0x75, 0x66, 0x66, 0x66, 0x64]
           else take (snd rs) (b # rest)) @ escaped (drop (snd rs) (b # rest) @ c # post)"
        using unsafe True same t d
        by (simp add: escaped.simps(2) [of b "rest @ c # post"] Let_def)
      moreover have "escaped (b # rest) =
          (if fst rs = RuneError \<and> snd rs = 1 then [0x5C, 0x75, 0x66, 0x66, 0x66, 0x64]
           else take (snd rs) (b # rest)) @ escaped (drop (snd rs) (b # rest))"
        using unsafe True by (simp add: escaped.simps(2) [of b rest] Let_def rs_def)
      ultimately show ?thesis
        using IH by simp
    next
      case False
      with 2 unsafe show ?thesis
        by (simp add: escaped.simps(2))
    qed
  qed
qed

lemma escapeByte_no_DEL: "0x7F \<notin> set (escapeByte b)"
  using hexDigit_not_DEL [OF high_nibble(1) [of b]] hexDigit_not_DEL [OF low_nibble(1) [of b]]
  by (auto simp: escapeByte_def)

lemma escaped_no_DEL: "0x7F \<notin> set (escaped s)"
proof (induction s rule: escaped.induct)
  case 1
  show ?case by simp
next
  case (2 b rest)
  show ?case
  proof (cases "safeSet b")
    case True
    with 2 safeSet_ascii [of b] show ?thesis
      by (auto simp: escaped.simps(2))
  next
    case unsafe: False
    show ?thesis
    proof (cases "b \<ge> RuneSelf")
      case True
      then have h: "0x80 \<le> b"
        by (simp add: RuneSelf_def)
      let ?rs = "DecodeRuneInString (b # rest)"
      have IH: "0x7F \<notin> set (escaped (drop (snd ?rs) (b # rest)))"
        using 2(2) [OF unsafe True refl] .
      have "?rs = (RuneError, 1) \<or> utf8_seq (take (snd ?rs) (b # rest))"
        using Decode_high_cases [OF h, of rest] by auto
      then have "0x7F \<notin> set (if ?rs = (RuneError, 1) then [0x5C, 0x75, 0x66, 0x66, 0x66, 0x64]
           else take (snd ?rs) (b # rest))"
      proof
        assume "?rs = (RuneError, 1)"
        then show ?thesis by simp
      next
        assume "utf8_seq (take (snd ?rs) (b # rest))"
        from utf8_seq_high [OF this] have "0x7F \<notin> set (take (snd ?rs) (b # rest))"
          by (auto simp: list_all_iff word_le_nat_alt)
        then show ?thesis by simp
      qed
      with IH show ?thesis
        by (simp only: escaped_high [OF h, of rest] set_append Un_iff) simp
    next
      case False
      with 2 unsafe escapeByte_no_DEL [of b] show ?thesis
        by (auto simp: escaped.simps(2))
    qed
  qed
qed



text \<open>
  C10: the byte 0x7F is not in the safe set and is below \<^verbatim>\<open>utf8.RuneSelf\<close>. Wherever it
  stands in the input, \<^verbatim>\<open>appendEscapedString\<close> appends the six characters \<^verbatim>\<open>\u007f\<close> for it,
  between what it appends for the bytes before and for the bytes after; and it never
  appends the byte 0x7F itself, for any input.
\<close>

theorem appendEscapedString_DEL:
  "\<not> safeSet 0x7F
   \<and> (0x7F :: byte) < RuneSelf
   \<and> appendEscapedString dst (pre @ 0x7F # post) =
       appendEscapedString (appendEscapedString dst pre @ [0x5C, 0x75, 0x30, 0x30, 0x37, 0x66]) post
   \<and> [0x5C, 0x75, 0x30, 0x30, 0x37, 0x66] = 0x5C # bs ''u007f''
   \<and> (\<exists>out. appendEscapedString dst s = dst @ out \<and> 0x7F \<notin> set out)"
proof -
  have "escaped (pre @ 0x7F # post) = escaped pre @ escaped (0x7F # post)"
    by (rule escaped_append_ascii) simp
  moreover have "escaped (0x7F # post) = [0x5C, 0x75, 0x30, 0x30, 0x37, 0x66] @ escaped post"
    by (simp add: escaped_ascii_unsafe safeSet_def escapeByte_def hexDigit_def)
  ultimately show ?thesis
    using escaped_no_DEL [of s]
    by (simp add: appendEscapedString_eq safeSet_def RuneSelf_def bs_def)
qed

theorem appendEscapedString_DEL_witness:
  "appendEscapedString [] (bs ''a'' @ 0x7F # bs ''b'') = bs ''a'' @ 0x5C # bs ''u007f'' @ bs ''b''"
proof -
  have "appendEscapedString [] (bs ''a'') = bs ''a''"
    by (simp add: appendEscapedString_eq escaped.simps(2) safeSet_def bs_def)
  moreover have "appendEscapedString dst (bs ''b'') = dst @ bs ''b''" for dst
    by (simp add: appendEscapedString_eq escaped.simps(2) safeSet_def bs_def)
  ultimately show ?thesis
    using appendEscapedString_DEL [of "[]" "bs ''a''" "bs ''b''"]
    by (simp add: bs_def)
qed

section \<open>Properties of the field encoder\<close>

lemma appendJSONString_eq: "appendJSONString dst s = dst @ 0x22 # escaped s @ [0x22]"
  by (simp add: appendJSONString_def appendEscapedString_eq)

lemma appendKey_eq: "appendKey dst k = dst @ 0x22 # escaped k @ [0x22, 0x3A]"
  by (simp add: appendKey_def appendEscapedString_eq)

lemma appendBool_eq: "appendBool dst v = dst @ appendBool [] v"
  by (simp add: appendBool_def)

lemma appendFloat64_eq: "appendFloat64 dst v = Some (dst @ formatFloat64 v)"
  by (simp add: appendFloat64_def formatFloat64_def appendInt64_eq Let_def)

lemma time_appendInt_eq:
  "NO_MATCH [] b \<Longrightarrow> time_appendInt b x width = b @ time_appendInt [] x width"
  by (simp add: time_appendInt_def Let_def)

lemma appendNano_eq: "NO_MATCH [] b \<Longrightarrow> appendNano b n = b @ appendNano [] n"
  by (simp add: appendNano_def)

lemma AppendFormat_eq:
  "NO_MATCH [] b \<Longrightarrow> AppendFormat_RFC3339Nano b t = b @ AppendFormat_RFC3339Nano [] t"
  unfolding AppendFormat_RFC3339Nano_def Let_def
  by (simp add: time_appendInt_eq appendNano_eq)

lemma appendTime_eq: "appendTime dst t = dst @ 0x22 # AppendFormat_RFC3339Nano [] t @ [0x22]"
  by (simp add: appendTime_def AppendFormat_eq)

lemma appendField_eq: "appendField local dst f = Some (dst @ encodeField local f)"
  by (simp add: appendField_def encodeField_def Let_def appendKey_eq appendJSONString_eq
      appendInt64_eq appendFloat64_eq appendDuration_def appendBool_def appendTime_eq)

lemma appendFields_eq: "appendFields local b fs = Some (b @ encodeFields local fs)"
  by (induction fs arbitrary: b) (simp_all add: encodeFields_def appendField_eq)

section \<open>Properties of the logger\<close>

lemma Get_empty: "pool_ok p \<Longrightarrow> B (fst (Get p)) = []"
  by (cases "free p") (simp_all add: Get_def pool_ok_def)

lemma Reset_update: "Reset (buf\<lparr>B := b\<rparr>) = Reset buf"
  by (simp add: Reset_def)

lemma pool_cycle_props:
  "gets (pool_cycle p) = gets p + 1" "puts (pool_cycle p) = puts p + 1"
  "pool_ok p \<Longrightarrow> pool_ok (pool_cycle p)"
  by (cases "free p"; simp add: pool_cycle_def Get_def Put_def Reset_def pool_ok_def)+

lemma Logger_log_eq:
  assumes "l < length (loggers w)"
    and "pool (loggers w ! l) < length (pools w)"
    and "output_w (loggers w ! l) < length (sinks w)"
    and "pool_ok (pools w ! pool (loggers w ! l))"
  shows "Logger_log e l lvl msg flds w =
     Some (w\<lparr>sinks := (sinks w)[output_w (loggers w ! l) :=
                sinks w ! output_w (loggers w ! l) @
                  [wire_record (Level_String lvl) (AppendFormat_RFC3339Nano [] (Now e)) msg
                     (context_b (loggers w ! l)) (encodeFields (Local e) flds)]],
              pools := (pools w)[pool (loggers w ! l) := pool_cycle (pools w ! pool (loggers w ! l))]\<rparr>)"
  using assms Get_empty [OF assms(4)]
  by (simp add: Logger_log_def deref_def Let_def split_beta appendFields_eq appendTime_eq
      appendJSONString_eq wire_record_def Reset_update pool_cycle_def)

lemma With_eq:
  assumes "flds \<noteq> []"
    and "l < length (loggers w)"
    and "pool (loggers w ! l) < length (pools w)"
    and "pool_ok (pools w ! pool (loggers w ! l))"
  shows "With e l flds w =
     Some (length (loggers w),
       w\<lparr>pools := (pools w)[pool (loggers w ! l) := pool_cycle (pools w ! pool (loggers w ! l))],
         loggers := loggers w @
           [\<lparr>output_w = output_w (loggers w ! l), level = level (loggers w ! l),
             pool = pool (loggers w ! l),
             context_b = context_b (loggers w ! l) @ encodeFields (Local e) flds\<rparr>]\<rparr>)"
  using assms Get_empty [OF assms(4)]
  by (simp add: With_def deref_def Let_def split_beta appendFields_eq Reset_update pool_cycle_def)

end
